theory Spec2Isabelle
  imports Complex_Main
begin

section \<open>Monte Carlo simulation of the OLS estimator (monte.py)\<close>

text \<open>
  The script has three functions: \<open>generate_data\<close> draws a sample from a linear model
  with Gaussian noise, \<open>simple_linear_regression\<close> fits the closed-form least-squares
  line, and \<open>monte_carlo_simulation\<close> repeats both and collects the coefficients.

  Numbers are numpy binary64 floats. The first model keeps the special values of IEEE
  arithmetic (infinities and NaN, which numpy produces with a warning instead of
  raising) and replaces the rounded finite values by exact reals: there, rounding and
  the sign of zero are not modelled. It states what the program computes up to
  floating-point rounding. A second model of the estimator rounds the result of every
  operation to binary64 (to nearest, ties to even, with overflow and gradual underflow);
  it shows where rounding changes the outcome.
\<close>

subsection \<open>Floats: exact finite values and the IEEE special values\<close>

datatype fl = Fin real | PInf | NInf | NaN

fun fneg :: "fl \<Rightarrow> fl" where
  "fneg (Fin a) = Fin (- a)"
| "fneg PInf = NInf"
| "fneg NInf = PInf"
| "fneg NaN = NaN"

fun fadd :: "fl \<Rightarrow> fl \<Rightarrow> fl" where
  "fadd NaN _ = NaN"
| "fadd _ NaN = NaN"
| "fadd (Fin a) (Fin b) = Fin (a + b)"
| "fadd PInf NInf = NaN"
| "fadd NInf PInf = NaN"
| "fadd (Fin _) w = w"
| "fadd w _ = w"

definition fsub :: "fl \<Rightarrow> fl \<Rightarrow> fl" where
  "fsub a b = fadd a (fneg b)"

fun fmul :: "fl \<Rightarrow> fl \<Rightarrow> fl" where
  "fmul NaN _ = NaN"
| "fmul _ NaN = NaN"
| "fmul (Fin a) (Fin b) = Fin (a * b)"
| "fmul (Fin a) w = (if a = 0 then NaN else if 0 < a then w else fneg w)"
| "fmul w (Fin b) = (if b = 0 then NaN else if 0 < b then w else fneg w)"
| "fmul PInf w = w"
| "fmul NInf w = fneg w"

text \<open>
  Division of floats never raises in numpy: a zero divisor gives NaN for a zero
  dividend and an infinity otherwise (the zero divisor is taken as \<open>+0.0\<close>).
\<close>

fun fdiv :: "fl \<Rightarrow> fl \<Rightarrow> fl" where
  "fdiv NaN _ = NaN"
| "fdiv _ NaN = NaN"
| "fdiv (Fin a) (Fin b) =
     (if b \<noteq> 0 then Fin (a / b)
      else if a = 0 then NaN else if 0 < a then PInf else NInf)"
| "fdiv (Fin _) _ = Fin 0"
| "fdiv w (Fin b) = (if 0 \<le> b then w else fneg w)"
| "fdiv _ _ = NaN"

fun flt :: "fl \<Rightarrow> fl \<Rightarrow> bool" where
  "flt NaN _ = False"
| "flt _ NaN = False"
| "flt (Fin a) (Fin b) = (a < b)"
| "flt NInf NInf = False"
| "flt NInf _ = True"
| "flt PInf _ = False"
| "flt (Fin _) PInf = True"
| "flt (Fin _) NInf = False"

subsection \<open>Arrays\<close>

text \<open>
  A one-dimensional numpy array is a list of floats. An operation on two arrays
  broadcasts: equal lengths go elementwise, an array of length one is stretched,
  and any other pair of lengths raises \<open>ValueError\<close>.
\<close>

datatype error = ValueError

type_synonym ndarray = "fl list"

definition array_op :: "(fl \<Rightarrow> fl \<Rightarrow> fl) \<Rightarrow> ndarray \<Rightarrow> ndarray \<Rightarrow> error + ndarray" where
  "array_op f a b =
     (if length a = length b then Inr (map2 f a b)
      else if length a = 1 then Inr (map (f (hd a)) b)
      else if length b = 1 then Inr (map (\<lambda>v. f v (hd b)) a)
      else Inl ValueError)"

text \<open>\<open>np.sum\<close>: the sum of the elements, \<open>0.0\<close> for the empty array.\<close>

fun np_sum :: "ndarray \<Rightarrow> fl" where
  "np_sum [] = Fin 0"
| "np_sum (v # vs) = fadd v (np_sum vs)"

text \<open>\<open>np.mean\<close>: the sum over the length; the empty array gives \<open>0.0 / 0\<close>, NaN.\<close>

definition np_mean :: "ndarray \<Rightarrow> fl" where
  "np_mean a = fdiv (np_sum a) (Fin (real (length a)))"

subsection \<open>The pseudorandom source\<close>

text \<open>
  \<open>np.random\<close> is one process-wide generator. Its state is passed explicitly; the
  two primitive draws of the generator (a double in the unit interval, a standard
  normal deviate) belong to numpy, not to this program, and are parameters.
\<close>

record 'g random_state =
  next_double :: "'g \<Rightarrow> real \<times> 'g"
  next_gauss :: "'g \<Rightarrow> real \<times> 'g"

fun draws :: "('g \<Rightarrow> real \<times> 'g) \<Rightarrow> nat \<Rightarrow> 'g \<Rightarrow> real list \<times> 'g" where
  "draws f 0 g = ([], g)"
| "draws f (Suc k) g =
     (case f g of (v, g1) \<Rightarrow> (case draws f k g1 of (vs, g2) \<Rightarrow> (v # vs, g2)))"

text \<open>
  \<open>np.random.uniform(low, high, size)\<close>: \<open>size\<close> values \<open>low + (high - low) * u\<close>;
  a negative size raises \<open>ValueError\<close> before anything is drawn.
\<close>

definition uniform ::
  "'g random_state \<Rightarrow> real \<Rightarrow> real \<Rightarrow> int \<Rightarrow> 'g \<Rightarrow> (error + ndarray) \<times> 'g" where
  "uniform R low high sz g =
     (if sz < 0 then (Inl ValueError, g)
      else case draws (next_double R) (nat sz) g of
             (us, g1) \<Rightarrow> (Inr (map (\<lambda>u. Fin (low + (high - low) * u)) us), g1))"

text \<open>
  \<open>np.random.normal(loc, scale, size)\<close>: \<open>size\<close> values \<open>loc + scale * z\<close>; a negative
  scale or a negative size raises \<open>ValueError\<close> before anything is drawn.
\<close>

definition normal ::
  "'g random_state \<Rightarrow> fl \<Rightarrow> fl \<Rightarrow> int \<Rightarrow> 'g \<Rightarrow> (error + ndarray) \<times> 'g" where
  "normal R loc scale sz g =
     (if flt scale (Fin 0) then (Inl ValueError, g)
      else if sz < 0 then (Inl ValueError, g)
      else case draws (next_gauss R) (nat sz) g of
             (zs, g1) \<Rightarrow> (Inr (map (\<lambda>z. fadd loc (fmul scale (Fin z))) zs), g1))"

subsection \<open>generate\_data\<close>

text \<open>
  \<^verbatim>\<open>x = np.random.uniform(0, 10, n)\<close>, \<^verbatim>\<open>error = np.random.normal(0, noise_std, n)\<close>,
  \<^verbatim>\<open>y = beta_0 + beta_1 * x + error\<close>, \<^verbatim>\<open>return x, y\<close>.
\<close>

definition generate_data ::
  "'g random_state \<Rightarrow> int \<Rightarrow> fl \<Rightarrow> fl \<Rightarrow> fl \<Rightarrow> 'g \<Rightarrow> (error + ndarray \<times> ndarray) \<times> 'g" where
  "generate_data R n beta_0 beta_1 noise_std g =
     (case uniform R 0 10 n g of
        (Inl e, g1) \<Rightarrow> (Inl e, g1)
      | (Inr x, g1) \<Rightarrow>
         (case normal R (Fin 0) noise_std n g1 of
            (Inl e, g2) \<Rightarrow> (Inl e, g2)
          | (Inr err, g2) \<Rightarrow>
             (case array_op fadd (map (\<lambda>v. fadd beta_0 (fmul beta_1 v)) x) err of
                Inl e \<Rightarrow> (Inl e, g2)
              | Inr y \<Rightarrow> (Inr (x, y), g2))))"

subsection \<open>simple\_linear\_regression\<close>

text \<open>
  The two sums of line 16: the cross products of the deviations (broadcast like any
  product of two arrays) and the squared deviations of \<open>x\<close>.
\<close>

definition cross_sum :: "ndarray \<Rightarrow> ndarray \<Rightarrow> error + fl" where
  "cross_sum x y =
     (case array_op fmul (map (\<lambda>v. fsub v (np_mean x)) x) (map (\<lambda>v. fsub v (np_mean y)) y) of
        Inl e \<Rightarrow> Inl e
      | Inr p \<Rightarrow> Inr (np_sum p))"

definition square_sum :: "ndarray \<Rightarrow> fl" where
  "square_sum x = np_sum (map (\<lambda>v. fmul v v) (map (\<lambda>v. fsub v (np_mean x)) x))"

text \<open>
  \<^verbatim>\<open>beta_1 = np.sum((x - x_mean) * (y - y_mean)) / np.sum((x - x_mean) ** 2)\<close>,
  \<^verbatim>\<open>beta_0 = y_mean - beta_1 * x_mean\<close>, \<^verbatim>\<open>return beta_0, beta_1\<close>: the intercept
  first, the slope second. The division is unguarded. (\<^verbatim>\<open>n = len(x)\<close> of line 13 is
  never used.)
\<close>

definition simple_linear_regression :: "ndarray \<Rightarrow> ndarray \<Rightarrow> error + fl \<times> fl" where
  "simple_linear_regression x y =
     (let x_mean = np_mean x; y_mean = np_mean y in
      case cross_sum x y of
        Inl e \<Rightarrow> Inl e
      | Inr num \<Rightarrow>
         (let beta_1 = fdiv num (square_sum x);
              beta_0 = fsub y_mean (fmul beta_1 x_mean)
          in Inr (beta_0, beta_1)))"

subsection \<open>monte\_carlo\_simulation\<close>

text \<open>
  The loop \<^verbatim>\<open>for _ in range(num_simulations)\<close> with its two growing lists; an
  exception of a trial leaves the loop.
\<close>

fun trials ::
  "'g random_state \<Rightarrow> nat \<Rightarrow> int \<Rightarrow> fl \<Rightarrow> fl \<Rightarrow> fl \<Rightarrow> fl list \<times> fl list \<Rightarrow> 'g
     \<Rightarrow> (error + fl list \<times> fl list) \<times> 'g" where
  "trials R 0 n beta_0 beta_1 noise_std acc g = (Inr acc, g)"
| "trials R (Suc k) n beta_0 beta_1 noise_std (beta_0_estimates, beta_1_estimates) g =
     (case generate_data R n beta_0 beta_1 noise_std g of
        (Inl e, g1) \<Rightarrow> (Inl e, g1)
      | (Inr (x, y), g1) \<Rightarrow>
         (case simple_linear_regression x y of
            Inl e \<Rightarrow> (Inl e, g1)
          | Inr (beta_0_hat, beta_1_hat) \<Rightarrow>
              trials R k n beta_0 beta_1 noise_std
                (beta_0_estimates @ [beta_0_hat], beta_1_estimates @ [beta_1_hat]) g1))"

text \<open>\<open>range\<close> of a non-positive count is empty.\<close>

definition monte_carlo_simulation ::
  "'g random_state \<Rightarrow> int \<Rightarrow> int \<Rightarrow> fl \<Rightarrow> fl \<Rightarrow> fl \<Rightarrow> 'g \<Rightarrow> (error + fl list \<times> fl list) \<times> 'g" where
  "monte_carlo_simulation R num_simulations n beta_0 beta_1 noise_std g =
     trials R (nat num_simulations) n beta_0 beta_1 noise_std ([], []) g"

text \<open>A small generator for running the model: a counter, read off modulo ten.\<close>

definition counter_rng :: "nat random_state" where
  "counter_rng =
     \<lparr>next_double = (\<lambda>k. (real (k mod 10) / 10, Suc k)),
      next_gauss = (\<lambda>k. (real (k mod 10) / 10 - 1 / 2, Suc k))\<rparr>"

subsection \<open>The estimator as the specification words it\<close>

text \<open>
  The arithmetic mean of a sample, and the slope and intercept written as the sums
  over the indices that the specification gives. They are stated on exact reals and
  are what the program is compared with.
\<close>

text \<open>The \<open>x\<close> values of a sample are all identical (vacuously so when there are none).\<close>

fun all_identical :: "'a list \<Rightarrow> bool" where
  "all_identical [] = True"
| "all_identical (v # vs) = (\<forall>w\<in>set vs. w = v)"

definition arith_mean :: "real list \<Rightarrow> real" where
  "arith_mean xs = sum_list xs / real (length xs)"



text \<open>The same two sums, written over the lists as the program builds them.\<close>

definition sxx :: "real list \<Rightarrow> real" where
  "sxx xs = sum_list (map (\<lambda>v. v * v) (map (\<lambda>v. v - arith_mean xs) xs))"

definition sxy :: "real list \<Rightarrow> real list \<Rightarrow> real" where
  "sxy xs ys =
     sum_list (map2 (*) (map (\<lambda>v. v - arith_mean xs) xs) (map (\<lambda>v. v - arith_mean ys) ys))"

subsection \<open>Trials\<close>

text \<open>
  The state of the generator before trial \<open>i\<close> (trials counted from zero), and what
  generating and fitting one sample from a given state returns.
\<close>

fun trial_state :: "'g random_state \<Rightarrow> int \<Rightarrow> fl \<Rightarrow> fl \<Rightarrow> fl \<Rightarrow> 'g \<Rightarrow> nat \<Rightarrow> 'g" where
  "trial_state R n beta_0 beta_1 noise_std g 0 = g"
| "trial_state R n beta_0 beta_1 noise_std g (Suc i) =
     trial_state R n beta_0 beta_1 noise_std (snd (generate_data R n beta_0 beta_1 noise_std g)) i"

definition trial_fit :: "'g random_state \<Rightarrow> int \<Rightarrow> fl \<Rightarrow> fl \<Rightarrow> fl \<Rightarrow> 'g \<Rightarrow> error + fl \<times> fl" where
  "trial_fit R n beta_0 beta_1 noise_std g =
     (case fst (generate_data R n beta_0 beta_1 noise_std g) of
        Inl e \<Rightarrow> Inl e
      | Inr (x, y) \<Rightarrow> simple_linear_regression x y)"

subsection \<open>Binary64 rounding\<close>

text \<open>
  An IEEE operation returns the exact result rounded to the nearest binary64 value, ties
  to the even significand. The exponent of a positive real is found by binary search over
  the powers \<open>2 ^ (2 ^ k)\<close>: \<open>exponent_up\<close> for values from one upwards (at most 2047),
  \<open>exponent_down\<close> for values below one (at least \<open>-1024\<close>). Below \<open>2 ^ -1022\<close> the
  exponent stays at \<open>-1022\<close> (subnormal numbers), so the spacing of the values is
  \<open>2 ^ (e - 52)\<close> with \<open>e\<close> the exponent so bounded; a rounded magnitude of \<open>2 ^ 1024\<close>
  or more is an infinity.
\<close>

definition pow2 :: "int \<Rightarrow> real" where
  "pow2 e = (if 0 \<le> e then 2 ^ nat e else 1 / 2 ^ nat (- e))"

definition round_half_even :: "real \<Rightarrow> int" where
  "round_half_even q =
     (let m = \<lfloor>q\<rfloor>; f = q - of_int m
      in if f < 1 / 2 then m else if 1 / 2 < f then m + 1 else if even m then m else m + 1)"

fun exponent_up :: "nat \<Rightarrow> real \<Rightarrow> int" where
  "exponent_up 0 r = 0"
| "exponent_up (Suc k) r =
     (if 2 ^ (2 ^ k) \<le> r then 2 ^ k + exponent_up k (r / 2 ^ (2 ^ k)) else exponent_up k r)"

fun exponent_down :: "nat \<Rightarrow> real \<Rightarrow> int" where
  "exponent_down 0 r = - 1"
| "exponent_down (Suc k) r =
     (if r * 2 ^ (2 ^ k) < 1 then exponent_down k (r * 2 ^ (2 ^ k)) - 2 ^ k
      else exponent_down k r)"

definition exponent64 :: "real \<Rightarrow> int" where
  "exponent64 r = (if 1 \<le> r then exponent_up 11 r else max (exponent_down 10 r) (- 1022))"

definition round64 :: "real \<Rightarrow> fl" where
  "round64 r =
     (if r = 0 then Fin 0
      else let u = pow2 (exponent64 \<bar>r\<bar> - 52);
               v = of_int (round_half_even (r / u)) * u
           in if 2 ^ 1024 \<le> v then PInf else if v \<le> - (2 ^ 1024) then NInf else Fin v)"

definition r64 :: "fl \<Rightarrow> fl" where
  "r64 v = (case v of Fin r \<Rightarrow> round64 r | _ \<Rightarrow> v)"

definition add64 :: "fl \<Rightarrow> fl \<Rightarrow> fl" where
  "add64 a b = r64 (fadd a b)"

definition sub64 :: "fl \<Rightarrow> fl \<Rightarrow> fl" where
  "sub64 a b = r64 (fsub a b)"

definition mul64 :: "fl \<Rightarrow> fl \<Rightarrow> fl" where
  "mul64 a b = r64 (fmul a b)"

definition div64 :: "fl \<Rightarrow> fl \<Rightarrow> fl" where
  "div64 a b = r64 (fdiv a b)"

text \<open>
  With rounding the order of a sum matters. \<open>np.sum\<close> starts from \<open>0.0\<close> and adds numpy's
  pairwise sum of the array: fewer than eight elements are added one after the other
  from the left; up to 128 elements go into eight running sums that are combined as a
  tree, the elements after the last full block of eight being added at the end; a longer
  array is split near the middle, at a multiple of eight.
\<close>

definition sum_loop :: "fl \<Rightarrow> ndarray \<Rightarrow> fl" where
  "sum_loop res a = foldl add64 res a"

fun add_blocks :: "fl list \<Rightarrow> ndarray \<Rightarrow> fl list \<times> ndarray" where
  "add_blocks r (a0 # a1 # a2 # a3 # a4 # a5 # a6 # a7 # rest) =
     add_blocks (map2 add64 r [a0, a1, a2, a3, a4, a5, a6, a7]) rest"
| "add_blocks r a = (r, a)"

function pairwise_sum :: "ndarray \<Rightarrow> fl" where
  "pairwise_sum a =
     (if length a < 8 then sum_loop (Fin 0) a
      else if length a \<le> 128 then
        (case add_blocks (take 8 a) (drop 8 a) of
           (r, rest) \<Rightarrow>
             sum_loop (add64 (add64 (add64 (r ! 0) (r ! 1)) (add64 (r ! 2) (r ! 3)))
                             (add64 (add64 (r ! 4) (r ! 5)) (add64 (r ! 6) (r ! 7)))) rest)
      else (let n2 = length a div 2 - (length a div 2) mod 8
            in add64 (pairwise_sum (take n2 a)) (pairwise_sum (drop n2 a))))"
  by pat_completeness auto
termination
  by (relation "measure length") (auto simp: Let_def)

definition np_sum64 :: "ndarray \<Rightarrow> fl" where
  "np_sum64 a = add64 (Fin 0) (pairwise_sum a)"

definition np_mean64 :: "ndarray \<Rightarrow> fl" where
  "np_mean64 a = div64 (np_sum64 a) (Fin (real (length a)))"

text \<open>Lines 14 to 18 again, every operation rounded.\<close>

definition cross_sum64 :: "ndarray \<Rightarrow> ndarray \<Rightarrow> error + fl" where
  "cross_sum64 x y =
     (case array_op mul64 (map (\<lambda>v. sub64 v (np_mean64 x)) x)
                          (map (\<lambda>v. sub64 v (np_mean64 y)) y) of
        Inl e \<Rightarrow> Inl e
      | Inr p \<Rightarrow> Inr (np_sum64 p))"

definition square_sum64 :: "ndarray \<Rightarrow> fl" where
  "square_sum64 x = np_sum64 (map (\<lambda>v. mul64 v v) (map (\<lambda>v. sub64 v (np_mean64 x)) x))"

definition simple_linear_regression64 :: "ndarray \<Rightarrow> ndarray \<Rightarrow> error + fl \<times> fl" where
  "simple_linear_regression64 x y =
     (let x_mean = np_mean64 x; y_mean = np_mean64 y in
      case cross_sum64 x y of
        Inl e \<Rightarrow> Inl e
      | Inr num \<Rightarrow>
         (let beta_1 = div64 num (square_sum64 x);
              beta_0 = sub64 y_mean (mul64 beta_1 x_mean)
          in Inr (beta_0, beta_1)))"

section \<open>Properties\<close>

subsection \<open>Finite samples: the float computation is the real one\<close>

lemma np_sum_Fin: "np_sum (map Fin xs) = Fin (sum_list xs)"
  by (induction xs) auto

lemma np_mean_Fin: "xs \<noteq> [] \<Longrightarrow> np_mean (map Fin xs) = Fin (arith_mean xs)"
  by (simp add: np_mean_def np_sum_Fin arith_mean_def)

lemma np_mean_Nil: "np_mean [] = NaN"
  by (simp add: np_mean_def)

lemma fsub_Fin: "fsub (Fin a) (Fin b) = Fin (a - b)"
  by (simp add: fsub_def)

lemma array_op_same: "length a = length b \<Longrightarrow> array_op f a b = Inr (map2 f a b)"
  by (simp add: array_op_def)

lemma deviations_Fin: "map (\<lambda>v. fsub v (Fin m)) (map Fin xs) = map Fin (map (\<lambda>v. v - m) xs)"
  by (induction xs) (simp_all add: fsub_Fin)

lemma squares_Fin: "map (\<lambda>v. fmul v v) (map Fin xs) = map Fin (map (\<lambda>v. v * v) xs)"
  by (induction xs) simp_all

lemma products_Fin: "map2 fmul (map Fin xs) (map Fin ys) = map Fin (map2 (*) xs ys)"
proof (induction xs arbitrary: ys)
  case Nil
  show ?case by simp
next
  case (Cons a xs)
  then show ?case by (cases ys) simp_all
qed

lemma square_sum_Fin: "xs \<noteq> [] \<Longrightarrow> square_sum (map Fin xs) = Fin (sxx xs)"
  unfolding square_sum_def sxx_def
  by (simp add: np_mean_Fin deviations_Fin squares_Fin np_sum_Fin del: map_map)

lemma cross_sum_Fin:
  assumes "xs \<noteq> []" "length xs = length ys"
  shows "cross_sum (map Fin xs) (map Fin ys) = Inr (Fin (sxy xs ys))"
proof -
  from assms have "ys \<noteq> []" by auto
  with assms show ?thesis
    unfolding cross_sum_def sxy_def
    by (simp add: np_mean_Fin deviations_Fin array_op_same products_Fin np_sum_Fin del: map_map)
qed

lemma fit_Fin:
  assumes "xs \<noteq> []" "length xs = length ys" "sxx xs \<noteq> 0"
  shows "simple_linear_regression (map Fin xs) (map Fin ys) =
    Inr (Fin (arith_mean ys - sxy xs ys / sxx xs * arith_mean xs), Fin (sxy xs ys / sxx xs))"
proof -
  from assms have "ys \<noteq> []" by auto
  with assms show ?thesis
    unfolding simple_linear_regression_def
    by (simp add: cross_sum_Fin square_sum_Fin np_mean_Fin fsub_Fin)
qed

lemma fit_Fin_degenerate:
  assumes "xs \<noteq> []" "length xs = length ys" "sxx xs = 0" "sxy xs ys = 0"
  shows "simple_linear_regression (map Fin xs) (map Fin ys) = Inr (NaN, NaN)"
proof -
  from assms have "ys \<noteq> []" by auto
  with assms show ?thesis
    unfolding simple_linear_regression_def
    by (simp add: cross_sum_Fin square_sum_Fin np_mean_Fin fsub_def)
qed

lemma fit_Nil: "simple_linear_regression [] [] = Inr (NaN, NaN)"
  by (simp add: simple_linear_regression_def cross_sum_def square_sum_def array_op_def
      np_mean_def fsub_def)

lemma sq_dev_nonneg: "0 \<le> sum_list (map (\<lambda>v. v * v) (map (\<lambda>v. v - m) (xs :: real list)))"
  by (induction xs) simp_all

lemma sq_dev_zero_iff:
  "sum_list (map (\<lambda>v. v * v) (map (\<lambda>v. v - m) (xs :: real list))) = 0 \<longleftrightarrow> (\<forall>v\<in>set xs. v = m)"
  using sq_dev_nonneg[of m]
  by (induction xs) (simp_all add: add_nonneg_eq_0_iff del: map_map)

lemma sxx_zero_iff: "sxx xs = 0 \<longleftrightarrow> (\<forall>v\<in>set xs. v = arith_mean xs)"
  unfolding sxx_def by (rule sq_dev_zero_iff)

lemma all_identical_iff: "all_identical xs \<longleftrightarrow> (\<forall>v\<in>set xs. \<forall>w\<in>set xs. v = w)"
proof (cases xs)
  case Nil
  then show ?thesis by simp
next
  case (Cons a as)
  have "(\<forall>w\<in>set as. w = a) \<longleftrightarrow> (\<forall>v\<in>set (a # as). \<forall>w\<in>set (a # as). v = w)"
  proof
    assume "\<forall>w\<in>set as. w = a"
    then show "\<forall>v\<in>set (a # as). \<forall>w\<in>set (a # as). v = w" by (metis set_ConsD)
  next
    assume "\<forall>v\<in>set (a # as). \<forall>w\<in>set (a # as). v = w"
    then show "\<forall>w\<in>set as. w = a" by simp
  qed
  with Cons show ?thesis by simp
qed


lemma sum_list_const: "(\<forall>v\<in>set xs. v = c) \<Longrightarrow> sum_list xs = real (length xs) * c"
  by (induction xs) (simp_all add: algebra_simps)

lemma mean_const: "xs \<noteq> [] \<Longrightarrow> (\<forall>v\<in>set xs. v = c) \<Longrightarrow> arith_mean xs = c"
  by (simp add: arith_mean_def sum_list_const)

lemma sxx_nonzero: "\<not> all_identical xs \<Longrightarrow> sxx xs \<noteq> 0"
  unfolding sxx_zero_iff all_identical_iff by metis

lemma not_identical_nonempty: "\<not> all_identical xs \<Longrightarrow> xs \<noteq> []"
  by auto

lemma sxx_zero: assumes "all_identical xs" shows "sxx xs = 0"
proof (cases xs)
  case Nil
  then show ?thesis by (simp add: sxx_def)
next
  case (Cons a as)
  with assms have c: "\<forall>v\<in>set xs. v = a" by auto
  with Cons have "arith_mean xs = a" by (intro mean_const) auto
  with c show ?thesis by (simp add: sxx_zero_iff)
qed

lemma map2_mult_zero_left:
  "(\<forall>v\<in>set ds. v = 0) \<Longrightarrow> sum_list (map2 (*) ds (es :: real list)) = 0"
proof (induction ds arbitrary: es)
  case Nil
  show ?case by simp
next
  case (Cons d ds)
  then show ?case by (cases es) simp_all
qed

lemma sxy_zero: assumes "all_identical xs" shows "sxy xs ys = 0"
proof -
  from assms have "sxx xs = 0" by (rule sxx_zero)
  then have "\<forall>v\<in>set xs. v = arith_mean xs" by (simp add: sxx_zero_iff)
  then have "\<forall>d\<in>set (map (\<lambda>v. v - arith_mean xs) xs). d = 0" by simp
  then show ?thesis unfolding sxy_def by (rule map2_mult_zero_left)
qed




subsection \<open>The estimator\<close>



text \<open>
  C8: the sample \<open>x = [1, 2, 3]\<close>, \<open>y = [2, 4, 6]\<close> is fitted with intercept \<open>0\<close> and
  slope \<open>2\<close>, exactly.
\<close>

theorem fit_scenario_123:
  "simple_linear_regression [Fin 1, Fin 2, Fin 3] [Fin 2, Fin 4, Fin 6] = Inr (Fin 0, Fin 2)"
  by (simp add: simple_linear_regression_def cross_sum_def square_sum_def array_op_def
      np_mean_def fsub_def)

subsection \<open>Shifted and exactly linear samples\<close>












subsection \<open>The generator\<close>

lemma length_draws: "length (fst (draws f k g)) = k"
proof (induction k arbitrary: g)
  case 0
  show ?case by simp
next
  case (Suc k)
  obtain v g1 where a: "f g = (v, g1)" by (cases "f g")
  obtain vs g2 where b: "draws f k g1 = (vs, g2)" by (cases "draws f k g1")
  from Suc[of g1] b have "length vs = k" by simp
  with a b show ?case by simp
qed

lemma uniform_ok:
  "0 \<le> n \<Longrightarrow> uniform R low high n g =
     (Inr (map (\<lambda>u. Fin (low + (high - low) * u)) (fst (draws (next_double R) (nat n) g))),
      snd (draws (next_double R) (nat n) g))"
  by (simp add: uniform_def split: prod.splits)

lemma normal_ok:
  "0 \<le> n \<Longrightarrow> \<not> flt scale (Fin 0) \<Longrightarrow> normal R loc scale n g =
     (Inr (map (\<lambda>z. fadd loc (fmul scale (Fin z))) (fst (draws (next_gauss R) (nat n) g))),
      snd (draws (next_gauss R) (nat n) g))"
  by (simp add: normal_def split: prod.splits)

lemma generate_data_ok:
  assumes "0 \<le> n" "\<not> flt noise_std (Fin 0)"
  shows "\<exists>x noise g1 g2.
           uniform R 0 10 n g = (Inr x, g1) \<and>
           normal R (Fin 0) noise_std n g1 = (Inr noise, g2) \<and>
           length x = nat n \<and> length noise = nat n \<and>
           generate_data R n beta_0 beta_1 noise_std g =
             (Inr (x, map2 fadd (map (\<lambda>v. fadd beta_0 (fmul beta_1 v)) x) noise), g2)"
  by (simp add: generate_data_def uniform_ok normal_ok assms length_draws array_op_same)

text \<open>
  C3: for every sample size \<open>n \<ge> 1\<close> and all model parameters (the noise standard
  deviation not negative, as the data model requires), \<open>generate_data\<close> returns \<open>x\<close> and
  \<open>y\<close> of length \<open>n\<close> with \<open>y[i] = beta_0 + beta_1 * x[i] + noise[i]\<close>, where \<open>x\<close> is
  the uniform draw and \<open>noise\<close> the normal draw made right after it.
\<close>

theorem generate_data_linear:
  assumes "1 \<le> n" and "\<not> flt noise_std (Fin 0)"
  shows "\<exists>x noise y g1 g2.
           uniform R 0 10 n g = (Inr x, g1) \<and>
           normal R (Fin 0) noise_std n g1 = (Inr noise, g2) \<and>
           generate_data R n beta_0 beta_1 noise_std g = (Inr (x, y), g2) \<and>
           length x = nat n \<and> length y = nat n \<and>
           (\<forall>i<nat n. y ! i = fadd (fadd beta_0 (fmul beta_1 (x ! i))) (noise ! i))"
proof -
  from assms have "0 \<le> n" by simp
  from generate_data_ok[OF this assms(2), of R g beta_0 beta_1]
  obtain x noise g1 g2 where
    h: "uniform R 0 10 n g = (Inr x, g1)" "normal R (Fin 0) noise_std n g1 = (Inr noise, g2)"
       "length x = nat n" "length noise = nat n"
       "generate_data R n beta_0 beta_1 noise_std g =
             (Inr (x, map2 fadd (map (\<lambda>v. fadd beta_0 (fmul beta_1 v)) x) noise), g2)"
    by blast
  let ?y = "map2 fadd (map (\<lambda>v. fadd beta_0 (fmul beta_1 v)) x) noise"
  have "length ?y = nat n" using h(3,4) by simp
  moreover have "\<forall>i<nat n. ?y ! i = fadd (fadd beta_0 (fmul beta_1 (x ! i))) (noise ! i)"
    using h(3,4) by simp
  ultimately show ?thesis using h by blast
qed

lemma draws_numeral:
  "draws f (numeral k) g =
     (case f g of (v, g1) \<Rightarrow> (case draws f (pred_numeral k) g1 of (vs, g2) \<Rightarrow> (v # vs, g2)))"
  by (simp add: numeral_eq_Suc)

theorem generate_data_linear_witness:
  "(1::int) \<le> 3 \<and> \<not> flt (Fin 1) (Fin 0) \<and>
   generate_data counter_rng 3 (Fin 2) (Fin 3) (Fin 1) 0 =
     (Inr ([Fin 0, Fin 1, Fin 2], [Fin (9 / 5), Fin (49 / 10), Fin 8]), 6)"
  using generate_data_linear [of 3 "Fin 1" counter_rng 0 "Fin 2" "Fin 3"]
  by (simp add: generate_data_def uniform_def normal_def counter_rng_def array_op_def draws_numeral)

subsection \<open>The driver\<close>

lemma trials_numeral:
  "trials R (numeral k) n beta_0 beta_1 noise_std (a0, a1) g =
     (case generate_data R n beta_0 beta_1 noise_std g of
        (Inl e, g1) \<Rightarrow> (Inl e, g1)
      | (Inr (x, y), g1) \<Rightarrow>
         (case simple_linear_regression x y of
            Inl e \<Rightarrow> (Inl e, g1)
          | Inr (beta_0_hat, beta_1_hat) \<Rightarrow>
              trials R (pred_numeral k) n beta_0 beta_1 noise_std
                (a0 @ [beta_0_hat], a1 @ [beta_1_hat]) g1))"
  by (simp add: numeral_eq_Suc)

lemma fit_same_length:
  assumes "length x = length y"
  shows "\<exists>b0 b1. simple_linear_regression x y = Inr (b0, b1)"
  using assms by (simp add: simple_linear_regression_def cross_sum_def array_op_same Let_def)

lemma trial_fit_ok:
  assumes "0 \<le> n" "\<not> flt noise_std (Fin 0)"
  shows "\<exists>x y g1 b0 b1. generate_data R n beta_0 beta_1 noise_std g = (Inr (x, y), g1) \<and>
           simple_linear_regression x y = Inr (b0, b1) \<and>
           trial_fit R n beta_0 beta_1 noise_std g = Inr (b0, b1)"
proof -
  from generate_data_ok[OF assms, of R g beta_0 beta_1]
  obtain x y g1 where gen: "generate_data R n beta_0 beta_1 noise_std g = (Inr (x, y), g1)"
    and len: "length x = length y"
    by fastforce
  from fit_same_length[OF len] obtain b0 b1 where
    fit: "simple_linear_regression x y = Inr (b0, b1)" by blast
  from gen fit have "trial_fit R n beta_0 beta_1 noise_std g = Inr (b0, b1)"
    by (simp add: trial_fit_def)
  with gen fit show ?thesis by blast
qed

lemma trials_ok:
  assumes "0 \<le> n" "\<not> flt noise_std (Fin 0)"
  shows "\<exists>e0 e1. trials R k n beta_0 beta_1 noise_std (a0, a1) g =
            (Inr (a0 @ e0, a1 @ e1), trial_state R n beta_0 beta_1 noise_std g k) \<and>
          length e0 = k \<and> length e1 = k \<and>
          (\<forall>i<k. trial_fit R n beta_0 beta_1 noise_std
                    (trial_state R n beta_0 beta_1 noise_std g i) = Inr (e0 ! i, e1 ! i))"
proof (induction k arbitrary: a0 a1 g)
  case 0
  show ?case by simp
next
  case (Suc k)
  from trial_fit_ok[OF assms, of R beta_0 beta_1 g]
  obtain x y g1 b0 b1 where
    gen: "generate_data R n beta_0 beta_1 noise_std g = (Inr (x, y), g1)" and
    fit: "simple_linear_regression x y = Inr (b0, b1)" and
    tf: "trial_fit R n beta_0 beta_1 noise_std g = Inr (b0, b1)"
    by blast
  from Suc[of "a0 @ [b0]" "a1 @ [b1]" g1]
  obtain e0 e1 where
    ih: "trials R k n beta_0 beta_1 noise_std (a0 @ [b0], a1 @ [b1]) g1 =
            (Inr ((a0 @ [b0]) @ e0, (a1 @ [b1]) @ e1), trial_state R n beta_0 beta_1 noise_std g1 k)"
        "length e0 = k" "length e1 = k"
        "\<forall>i<k. trial_fit R n beta_0 beta_1 noise_std
                    (trial_state R n beta_0 beta_1 noise_std g1 i) = Inr (e0 ! i, e1 ! i)"
    by blast
  have st: "\<And>i. trial_state R n beta_0 beta_1 noise_std g (Suc i) =
                 trial_state R n beta_0 beta_1 noise_std g1 i"
    using gen by simp
  have run: "trials R (Suc k) n beta_0 beta_1 noise_std (a0, a1) g =
      (Inr (a0 @ (b0 # e0), a1 @ (b1 # e1)), trial_state R n beta_0 beta_1 noise_std g (Suc k))"
    using gen fit ih(1) by simp
  have each: "\<forall>i<Suc k. trial_fit R n beta_0 beta_1 noise_std
                    (trial_state R n beta_0 beta_1 noise_std g i) = Inr ((b0 # e0) ! i, (b1 # e1) ! i)"
  proof (intro allI impI)
    fix i assume "i < Suc k"
    show "trial_fit R n beta_0 beta_1 noise_std
                    (trial_state R n beta_0 beta_1 noise_std g i) = Inr ((b0 # e0) ! i, (b1 # e1) ! i)"
    proof (cases i)
      case 0
      with tf show ?thesis by simp
    next
      case (Suc j)
      with \<open>i < Suc k\<close> have "j < k" by simp
      with ih(4) Suc st show ?thesis by simp
    qed
  qed
  have "length (b0 # e0) = Suc k" "length (b1 # e1) = Suc k" using ih(2,3) by simp_all
  with run each show ?case by blast
qed

text \<open>
  C2: for \<open>num_simulations > 0\<close> and \<open>n > 1\<close> (and a noise standard deviation that is
  not negative) the run returns two lists of length \<open>num_simulations\<close>; their \<open>i\<close>-th
  elements are the intercept and the slope fitted from the \<open>i\<close>-th generated sample, the
  one drawn from the generator state that the \<open>i\<close> earlier trials leave.
\<close>

theorem run_collects_trials:
  assumes "0 < num_simulations" and "1 < n" and "\<not> flt noise_std (Fin 0)"
  shows "\<exists>b0s b1s g'.
           monte_carlo_simulation R num_simulations n beta_0 beta_1 noise_std g = (Inr (b0s, b1s), g') \<and>
           int (length b0s) = num_simulations \<and> int (length b1s) = num_simulations \<and>
           (\<forall>i<length b0s.
              trial_fit R n beta_0 beta_1 noise_std
                (trial_state R n beta_0 beta_1 noise_std g i) = Inr (b0s ! i, b1s ! i))"
proof -
  from assms(2) have n0: "0 \<le> n" by simp
  from trials_ok[OF n0 assms(3), of R "nat num_simulations" beta_0 beta_1 "[]" "[]" g]
  obtain e0 e1 where
    h: "trials R (nat num_simulations) n beta_0 beta_1 noise_std ([], []) g =
            (Inr ([] @ e0, [] @ e1),
             trial_state R n beta_0 beta_1 noise_std g (nat num_simulations))"
       "length e0 = nat num_simulations" "length e1 = nat num_simulations"
       "\<forall>i<nat num_simulations. trial_fit R n beta_0 beta_1 noise_std
                    (trial_state R n beta_0 beta_1 noise_std g i) = Inr (e0 ! i, e1 ! i)"
    by blast
  from h(1) have "monte_carlo_simulation R num_simulations n beta_0 beta_1 noise_std g =
      (Inr (e0, e1), trial_state R n beta_0 beta_1 noise_std g (nat num_simulations))"
    by (simp add: monte_carlo_simulation_def)
  moreover from h(2,3) assms(1) have "int (length e0) = num_simulations" "int (length e1) = num_simulations"
    by simp_all
  moreover from h(2,4) have "\<forall>i<length e0. trial_fit R n beta_0 beta_1 noise_std
                    (trial_state R n beta_0 beta_1 noise_std g i) = Inr (e0 ! i, e1 ! i)"
    by simp
  ultimately show ?thesis by blast
qed

text \<open>
  C10: with \<open>num_simulations = 0\<close> the run raises nothing, returns two empty lists and
  leaves the generator state as it was: no trial, no draw.
\<close>

theorem run_zero_trials:
  "monte_carlo_simulation R 0 n beta_0 beta_1 noise_std g = (Inr ([], []), g)"
  by (simp add: monte_carlo_simulation_def)

lemmas run_defs = monte_carlo_simulation_def generate_data_def uniform_def normal_def
  counter_rng_def array_op_def draws_numeral trials_numeral simple_linear_regression_def
  cross_sum_def square_sum_def np_mean_def fsub_def

theorem run_collects_trials_witness:
  "(0::int) < 2 \<and> (1::int) < 3 \<and> \<not> flt (Fin 0) (Fin 0) \<and>
   monte_carlo_simulation counter_rng 2 3 (Fin 0) (Fin 1) (Fin 0) 0 =
     (Inr ([Fin 0, Fin 0], [Fin 1, Fin 1]), 12)"
  using run_collects_trials [of 2 3 "Fin 0" counter_rng "Fin 0" "Fin 1" 0]
  by (simp add: run_defs)

subsection \<open>Dependence on the draws\<close>

lemma draws_step:
  "draws f (Suc k) g = (fst (f g) # fst (draws f k (snd (f g))), snd (draws f k (snd (f g))))"
  by (simp add: split_beta)

lemma draws_rel:
  assumes step: "\<And>g h. rel g h \<Longrightarrow> fst (f g) = fst (f' h) \<and> rel (snd (f g)) (snd (f' h))"
      and "rel g h"
  shows "fst (draws f k g) = fst (draws f' k h) \<and> rel (snd (draws f k g)) (snd (draws f' k h))"
  using assms(2)
proof (induction k arbitrary: g h)
  case 0
  then show ?case by simp
next
  case (Suc k)
  from step[OF Suc.prems] have a: "fst (f g) = fst (f' h)" and b: "rel (snd (f g)) (snd (f' h))"
    by simp_all
  from Suc.IH[OF b] a show ?case by (simp only: draws_step fst_conv snd_conv)
qed

lemma uniform_rel:
  assumes "\<And>g h. rel g h \<Longrightarrow> fst (next_double R g) = fst (next_double R' h) \<and>
                     rel (snd (next_double R g)) (snd (next_double R' h))"
      and "rel g h"
  shows "fst (uniform R lo hi n g) = fst (uniform R' lo hi n h) \<and>
         rel (snd (uniform R lo hi n g)) (snd (uniform R' lo hi n h))"
  using draws_rel[of rel "next_double R" "next_double R'" g h "nat n", OF assms] assms(2)
  by (simp add: uniform_def split_beta)

lemma normal_rel:
  assumes "\<And>g h. rel g h \<Longrightarrow> fst (next_gauss R g) = fst (next_gauss R' h) \<and>
                     rel (snd (next_gauss R g)) (snd (next_gauss R' h))"
      and "rel g h"
  shows "fst (normal R loc scale n g) = fst (normal R' loc scale n h) \<and>
         rel (snd (normal R loc scale n g)) (snd (normal R' loc scale n h))"
  using draws_rel[of rel "next_gauss R" "next_gauss R'" g h "nat n", OF assms] assms(2)
  by (simp add: normal_def split_beta)

lemma generate_data_rel:
  assumes dbl: "\<And>g h. rel g h \<Longrightarrow> fst (next_double R g) = fst (next_double R' h) \<and>
                     rel (snd (next_double R g)) (snd (next_double R' h))"
      and gss: "\<And>g h. rel g h \<Longrightarrow> fst (next_gauss R g) = fst (next_gauss R' h) \<and>
                     rel (snd (next_gauss R g)) (snd (next_gauss R' h))"
      and r: "rel g h"
  shows "fst (generate_data R n beta_0 beta_1 noise_std g) =
           fst (generate_data R' n beta_0 beta_1 noise_std h) \<and>
         rel (snd (generate_data R n beta_0 beta_1 noise_std g))
             (snd (generate_data R' n beta_0 beta_1 noise_std h))"
proof -
  obtain u g1 where U: "uniform R 0 10 n g = (u, g1)" by (cases "uniform R 0 10 n g")
  obtain u' h1 where U': "uniform R' 0 10 n h = (u', h1)" by (cases "uniform R' 0 10 n h")
  from uniform_rel[of rel R R' g h 0 10 n, OF dbl r] U U'
  have uu: "u' = u" and r1: "rel g1 h1" by simp_all
  obtain e g2 where N: "normal R (Fin 0) noise_std n g1 = (e, g2)"
    by (cases "normal R (Fin 0) noise_std n g1")
  obtain e' h2 where N': "normal R' (Fin 0) noise_std n h1 = (e', h2)"
    by (cases "normal R' (Fin 0) noise_std n h1")
  from normal_rel[of rel R R' g1 h1 "Fin 0" noise_std n, OF gss r1] N N'
  have ee: "e' = e" and r2: "rel g2 h2" by simp_all
  show ?thesis
    using r1 r2
    by (simp add: generate_data_def U U' N N' uu ee split: sum.splits)
qed

lemma trials_rel:
  assumes dbl: "\<And>g h. rel g h \<Longrightarrow> fst (next_double R g) = fst (next_double R' h) \<and>
                     rel (snd (next_double R g)) (snd (next_double R' h))"
      and gss: "\<And>g h. rel g h \<Longrightarrow> fst (next_gauss R g) = fst (next_gauss R' h) \<and>
                     rel (snd (next_gauss R g)) (snd (next_gauss R' h))"
      and r: "rel g h"
  shows "fst (trials R k n beta_0 beta_1 noise_std acc g) =
           fst (trials R' k n beta_0 beta_1 noise_std acc h) \<and>
         rel (snd (trials R k n beta_0 beta_1 noise_std acc g))
             (snd (trials R' k n beta_0 beta_1 noise_std acc h))"
  using r
proof (induction k arbitrary: acc g h)
  case 0
  then show ?case by simp
next
  case (Suc k)
  obtain a0 a1 where acc: "acc = (a0, a1)" by (cases acc)
  obtain s g1 where G: "generate_data R n beta_0 beta_1 noise_std g = (s, g1)"
    by (cases "generate_data R n beta_0 beta_1 noise_std g")
  obtain s' h1 where G': "generate_data R' n beta_0 beta_1 noise_std h = (s', h1)"
    by (cases "generate_data R' n beta_0 beta_1 noise_std h")
  from generate_data_rel[of rel R R' g h n beta_0 beta_1 noise_std, OF dbl gss Suc.prems] G G'
  have ss: "s' = s" and r1: "rel g1 h1" by simp_all
  show ?case
  proof (cases s)
    case (Inl e)
    with r1 show ?thesis by (simp add: acc G G' ss)
  next
    case (Inr xy)
    obtain x y where xy: "xy = (x, y)" by (cases xy)
    show ?thesis
    proof (cases "simple_linear_regression x y")
      case (Inl e)
      with r1 show ?thesis by (simp add: acc G G' ss Inr xy)
    next
      case fit: (Inr b)
      obtain b0 b1 where b: "b = (b0, b1)" by (cases b)
      from Suc.IH[OF r1, of "(a0 @ [b0], a1 @ [b1])"]
      show ?thesis by (simp add: acc G G' ss Inr xy fit b)
    qed
  qed
qed

text \<open>
  C7: the run depends on the generator only through the values it draws. Two
  invocations with the same arguments whose generators are in corresponding states
  (states from which the same values are drawn, as after the same seed, or one state
  used twice) return the same two lists, and leave the generators in corresponding
  states.
\<close>

theorem run_depends_only_on_draws:
  assumes "\<And>g h. rel g h \<Longrightarrow> fst (next_double R g) = fst (next_double R' h) \<and>
                     rel (snd (next_double R g)) (snd (next_double R' h))"
      and "\<And>g h. rel g h \<Longrightarrow> fst (next_gauss R g) = fst (next_gauss R' h) \<and>
                     rel (snd (next_gauss R g)) (snd (next_gauss R' h))"
      and "rel seed seed'"
  shows "fst (monte_carlo_simulation R num_simulations n beta_0 beta_1 noise_std seed) =
           fst (monte_carlo_simulation R' num_simulations n beta_0 beta_1 noise_std seed') \<and>
         rel (snd (monte_carlo_simulation R num_simulations n beta_0 beta_1 noise_std seed))
             (snd (monte_carlo_simulation R' num_simulations n beta_0 beta_1 noise_std seed'))"
  unfolding monte_carlo_simulation_def
  using assms by (rule trials_rel)


theorem run_depends_only_on_draws_witness:
  "(\<forall>g. fst (next_double counter_rng g) = fst (next_double counter_rng (g + 10)) \<and>
        snd (next_double counter_rng (g + 10)) = snd (next_double counter_rng g) + 10) \<and>
   (\<forall>g. fst (next_gauss counter_rng g) = fst (next_gauss counter_rng (g + 10)) \<and>
        snd (next_gauss counter_rng (g + 10)) = snd (next_gauss counter_rng g) + 10) \<and>
   monte_carlo_simulation counter_rng 2 3 (Fin 2) (Fin 3) (Fin 1) 3 =
     (Inr ([Fin (9 / 5), Fin (677 / 365)], [Fin (31 / 10), Fin (1089 / 365)]), 15) \<and>
   monte_carlo_simulation counter_rng 2 3 (Fin 2) (Fin 3) (Fin 1) 13 =
     (Inr ([Fin (9 / 5), Fin (677 / 365)], [Fin (31 / 10), Fin (1089 / 365)]), 25)"
  using run_depends_only_on_draws [of "\<lambda>g h. h = g + 10" counter_rng counter_rng 3 13
      2 3 "Fin 2" "Fin 3" "Fin 1"]
  by (simp add: run_defs)

subsection \<open>Zero noise and degenerate sample sizes\<close>


lemma generate_data_shape:
  assumes "0 \<le> n" "\<not> flt noise_std (Fin 0)"
  shows "\<exists>xs zs g'. length xs = nat n \<and> length zs = nat n \<and>
           generate_data R n beta_0 beta_1 noise_std g =
             (Inr (map Fin xs,
                   map2 fadd (map (\<lambda>v. fadd beta_0 (fmul beta_1 v)) (map Fin xs))
                     (map (\<lambda>z. fadd (Fin 0) (fmul noise_std (Fin z))) zs)), g')"
proof -
  let ?us = "fst (draws (next_double R) (nat n) g)"
  let ?g1 = "snd (draws (next_double R) (nat n) g)"
  let ?zs = "fst (draws (next_gauss R) (nat n) ?g1)"
  let ?g2 = "snd (draws (next_gauss R) (nat n) ?g1)"
  let ?xs = "map ((*) 10) ?us"
  have x: "uniform R 0 10 n g = (Inr (map Fin ?xs), ?g1)"
    using assms(1) by (simp add: uniform_ok comp_def)
  have e: "normal R (Fin 0) noise_std n ?g1 =
             (Inr (map (\<lambda>z. fadd (Fin 0) (fmul noise_std (Fin z))) ?zs), ?g2)"
    using assms by (simp add: normal_ok)
  have lx: "length ?xs = nat n" and lz: "length ?zs = nat n" by (simp_all add: length_draws)
  have "generate_data R n beta_0 beta_1 noise_std g =
          (Inr (map Fin ?xs,
                map2 fadd (map (\<lambda>v. fadd beta_0 (fmul beta_1 v)) (map Fin ?xs))
                  (map (\<lambda>z. fadd (Fin 0) (fmul noise_std (Fin z))) ?zs)), ?g2)"
    by (simp add: generate_data_def x e array_op_same length_draws del: map_map)
  with lx lz show ?thesis by blast
qed




lemma fit_single: "simple_linear_regression [Fin a] [v] = Inr (NaN, NaN)"
  by (cases v)
     (simp_all add: simple_linear_regression_def cross_sum_def square_sum_def array_op_def
        np_mean_def fsub_def)

lemma generate_data_one:
  assumes "\<not> flt noise_std (Fin 0)"
  shows "\<exists>a v g'. generate_data R 1 beta_0 beta_1 noise_std g = (Inr ([Fin a], [v]), g')"
proof -
  have "(0::int) \<le> 1" by simp
  from generate_data_shape[OF this assms, of R beta_0 beta_1 g]
  obtain xs zs g' where h: "length xs = nat 1" "length zs = nat 1"
    "generate_data R 1 beta_0 beta_1 noise_std g =
             (Inr (map Fin xs,
                   map2 fadd (map (\<lambda>v. fadd beta_0 (fmul beta_1 v)) (map Fin xs))
                     (map (\<lambda>z. fadd (Fin 0) (fmul noise_std (Fin z))) zs)), g')"
    by blast
  from h(1) obtain a where xs: "xs = [a]" by (cases xs) auto
  from h(2) obtain z where zs: "zs = [z]" by (cases zs) auto
  from h(3) show ?thesis unfolding xs zs by simp
qed

lemma generate_data_none:
  assumes "\<not> flt noise_std (Fin 0)"
  shows "generate_data R 0 beta_0 beta_1 noise_std g = (Inr ([], []), g)"
  using assms
  by (simp add: generate_data_def uniform_def normal_def array_op_def)

lemma generate_data_negative:
  "n < 0 \<Longrightarrow> generate_data R n beta_0 beta_1 noise_std g = (Inl ValueError, g)"
  by (simp add: generate_data_def uniform_def)

lemma trial_fit_degenerate:
  assumes "n = 0 \<or> n = 1" "\<not> flt noise_std (Fin 0)"
  shows "trial_fit R n beta_0 beta_1 noise_std g = Inr (NaN, NaN)"
proof -
  from assms(1) show ?thesis
  proof
    assume "n = 0"
    then show ?thesis
      by (simp add: trial_fit_def generate_data_none[OF assms(2)] fit_Nil)
  next
    assume n: "n = 1"
    from generate_data_one[OF assms(2), of R beta_0 beta_1 g]
    obtain a v g' where "generate_data R 1 beta_0 beta_1 noise_std g = (Inr ([Fin a], [v]), g')"
      by blast
    with n show ?thesis by (simp add: trial_fit_def fit_single)
  qed
qed

lemma all_nth_replicate: "length e = k \<Longrightarrow> (\<forall>i<k. e ! i = v) \<Longrightarrow> e = replicate k v"
  by (simp add: list_eq_iff_nth_eq)

text \<open>
  A run with one trial of sample size one raises nothing: it draws from the generator
  and returns NaN for both coefficients.
\<close>

theorem run_small_sample_no_error_counterexample:
  "monte_carlo_simulation counter_rng 1 1 (Fin 0) (Fin 1) (Fin 1) 0 = (Inr ([NaN], [NaN]), 2)"
  by (simp add: run_defs)

text \<open>
  C4, as the program behaves: the run validates nothing. For a non-positive
  \<open>num_simulations\<close> it returns two empty lists, without an error and without a draw.
  For a positive one, a negative \<open>n\<close> makes the first call of the generator raise
  numpy's \<open>ValueError\<close> before anything is drawn, and \<open>n = 0\<close> or \<open>n = 1\<close> (noise
  standard deviation not negative) raises nothing: every trial runs and every estimate
  is NaN.
\<close>

theorem run_without_validation:
  "(num_simulations \<le> 0 \<longrightarrow>
      monte_carlo_simulation R num_simulations n beta_0 beta_1 noise_std g = (Inr ([], []), g)) \<and>
   (0 < num_simulations \<and> n < 0 \<longrightarrow>
      monte_carlo_simulation R num_simulations n beta_0 beta_1 noise_std g = (Inl ValueError, g)) \<and>
   (0 < num_simulations \<and> (n = 0 \<or> n = 1) \<and> \<not> flt noise_std (Fin 0) \<longrightarrow>
      (\<exists>g'. monte_carlo_simulation R num_simulations n beta_0 beta_1 noise_std g =
         (Inr (replicate (nat num_simulations) NaN, replicate (nat num_simulations) NaN), g')))"
proof (intro conjI impI)
  assume "num_simulations \<le> 0"
  then show "monte_carlo_simulation R num_simulations n beta_0 beta_1 noise_std g = (Inr ([], []), g)"
    by (simp add: monte_carlo_simulation_def)
next
  assume a: "0 < num_simulations \<and> n < 0"
  then obtain k where k: "nat num_simulations = Suc k" by (cases "nat num_simulations") auto
  from a show "monte_carlo_simulation R num_simulations n beta_0 beta_1 noise_std g = (Inl ValueError, g)"
    by (simp add: monte_carlo_simulation_def k generate_data_negative)
next
  assume a: "0 < num_simulations \<and> (n = 0 \<or> n = 1) \<and> \<not> flt noise_std (Fin 0)"
  then have n0: "0 \<le> n" and sd: "\<not> flt noise_std (Fin 0)" and n01: "n = 0 \<or> n = 1" by auto
  let ?k = "nat num_simulations"
  from trials_ok[OF n0 sd, of R ?k beta_0 beta_1 "[]" "[]" g]
  obtain e0 e1 where
    h: "trials R ?k n beta_0 beta_1 noise_std ([], []) g =
            (Inr ([] @ e0, [] @ e1), trial_state R n beta_0 beta_1 noise_std g ?k)"
       "length e0 = ?k" "length e1 = ?k"
       "\<forall>i<?k. trial_fit R n beta_0 beta_1 noise_std
                    (trial_state R n beta_0 beta_1 noise_std g i) = Inr (e0 ! i, e1 ! i)"
    by blast
  from h(4) have "\<forall>i<?k. e0 ! i = NaN" "\<forall>i<?k. e1 ! i = NaN"
    by (simp_all add: trial_fit_degenerate[OF n01 sd])
  with h(2,3) have "e0 = replicate ?k NaN" "e1 = replicate ?k NaN"
    by (simp_all add: all_nth_replicate)
  with h(1) show "\<exists>g'. monte_carlo_simulation R num_simulations n beta_0 beta_1 noise_std g =
         (Inr (replicate ?k NaN, replicate ?k NaN), g')"
    by (simp add: monte_carlo_simulation_def)
qed

theorem run_without_validation_witness:
  "(-1::int) \<le> 0 \<and>
   monte_carlo_simulation counter_rng (-1) 5 (Fin 2) (Fin 3) (Fin 1) 0 = (Inr ([], []), 0) \<and>
   (0::int) < 1 \<and> (-2::int) < 0 \<and>
   monte_carlo_simulation counter_rng 1 (-2) (Fin 2) (Fin 3) (Fin 1) 0 = (Inl ValueError, 0) \<and>
   (0::int) < 2 \<and> \<not> flt (Fin 1) (Fin 0) \<and>
   monte_carlo_simulation counter_rng 2 1 (Fin 2) (Fin 3) (Fin 1) 0 =
     (Inr ([NaN, NaN], [NaN, NaN]), 4)"
  using run_without_validation [of "-1" counter_rng 5 "Fin 2" "Fin 3" "Fin 1" 0]
    run_without_validation [of 1 counter_rng "-2" "Fin 2" "Fin 3" "Fin 1" 0]
    run_without_validation [of 2 counter_rng 1 "Fin 2" "Fin 3" "Fin 1" 0]
  by (simp add: run_defs)

subsection \<open>Rounded arithmetic: where binary64 differs\<close>

lemma exponent_up_numeral:
  "exponent_up (numeral k) r =
     (if 2 ^ (2 ^ pred_numeral k) \<le> r
      then 2 ^ pred_numeral k + exponent_up (pred_numeral k) (r / 2 ^ (2 ^ pred_numeral k))
      else exponent_up (pred_numeral k) r)"
  by (simp add: numeral_eq_Suc)

lemma exponent_down_numeral:
  "exponent_down (numeral k) r =
     (if r * 2 ^ (2 ^ pred_numeral k) < 1
      then exponent_down (pred_numeral k) (r * 2 ^ (2 ^ pred_numeral k)) - 2 ^ pred_numeral k
      else exponent_down (pred_numeral k) r)"
  by (simp add: numeral_eq_Suc)

lemmas round64_eval = round64_def exponent64_def exponent_up_numeral exponent_down_numeral
  pow2_def round_half_even_def Let_def

lemma pairwise_sum_short: "length a < 8 \<Longrightarrow> pairwise_sum a = sum_loop (Fin 0) a"
  by simp

lemmas fit64_eval = simple_linear_regression64_def cross_sum64_def square_sum64_def
  np_mean64_def np_sum64_def pairwise_sum_short sum_loop_def array_op_def
  add64_def sub64_def mul64_def div64_def r64_def fsub_def

text \<open>The rounding at some known places of binary64: \<open>0.1\<close>, ties, the largest
  finite value, the smallest positive one.\<close>

lemma round64_one_tenth: "round64 (1 / 10) = Fin (3602879701896397 / 2 ^ 55)"
  by (simp add: round64_eval)

lemma round64_ties_to_even:
  "round64 (2 ^ 53 + 1) = Fin (2 ^ 53)" "round64 (2 ^ 53 + 3) = Fin (2 ^ 53 + 4)"
  by (simp_all add: round64_eval)

lemma round64_overflow:
  "round64 (2 ^ 1024 - 2 ^ 971) = Fin (2 ^ 1024 - 2 ^ 971)" "round64 (2 ^ 1024 - 2 ^ 970) = PInf"
  by (simp_all add: round64_eval)

lemma round64_underflow:
  "round64 (1 / 2 ^ 1074) = Fin (1 / 2 ^ 1074)" "round64 (1 / 2 ^ 1075) = Fin 0"
  "round64 (3 / 2 ^ 1075) = Fin (2 / 2 ^ 1074)"
  by (simp_all add: round64_eval)

text \<open>Three times the binary64 value of \<open>0.1\<close>: the rounded mean is not \<open>0.1\<close>.\<close>

lemma identical_tenths_denominator:
  "square_sum64 [Fin (3602879701896397 / 2 ^ 55), Fin (3602879701896397 / 2 ^ 55), Fin (3602879701896397 / 2 ^ 55)] = Fin (3 / 2 ^ 112)"
  by (simp add: fit64_eval round64_eval del: pairwise_sum.simps)

lemma identical_tenths_fit:
  "simple_linear_regression64 [Fin (3602879701896397 / 2 ^ 55), Fin (3602879701896397 / 2 ^ 55), Fin (3602879701896397 / 2 ^ 55)] [Fin 1, Fin 2, Fin 3] = Inr (Fin 2, Fin 0)"
  by (simp add: fit64_eval round64_eval del: pairwise_sum.simps)

text \<open>Two distinct tiny values: the squares of the deviations underflow to zero.\<close>

lemma tiny_distinct_denominator: "square_sum64 [Fin 0, Fin (1 / 2 ^ 600)] = Fin 0"
  by (simp add: fit64_eval round64_eval del: pairwise_sum.simps)

lemma tiny_distinct_fit:
  "simple_linear_regression64 [Fin 0, Fin (1 / 2 ^ 600)] [Fin 0, Fin 1] = Inr (NInf, PInf)"
  by (simp add: fit64_eval round64_eval del: pairwise_sum.simps)

text \<open>
  In binary64 the denominator of the fit is not zero for the identical \<open>x\<close> values
  \<open>[0.1, 0.1, 0.1]\<close> (the fit returns the finite pair \<open>(2, 0)\<close>), and it is zero for the
  distinct \<open>x\<close> values \<open>[0, 2 ^ -600]\<close> (the fit returns infinities).
\<close>

theorem denominator_binary64_counterexample:
  "all_identical [Fin (3602879701896397 / 2 ^ 55), Fin (3602879701896397 / 2 ^ 55), Fin (3602879701896397 / 2 ^ 55)] \<and>
   square_sum64 [Fin (3602879701896397 / 2 ^ 55), Fin (3602879701896397 / 2 ^ 55), Fin (3602879701896397 / 2 ^ 55)] = Fin (3 / 2 ^ 112) \<and>
   simple_linear_regression64 [Fin (3602879701896397 / 2 ^ 55), Fin (3602879701896397 / 2 ^ 55), Fin (3602879701896397 / 2 ^ 55)] [Fin 1, Fin 2, Fin 3] = Inr (Fin 2, Fin 0) \<and>
   \<not> all_identical [Fin 0, Fin (1 / 2 ^ 600)] \<and>
   square_sum64 [Fin 0, Fin (1 / 2 ^ 600)] = Fin 0 \<and>
   simple_linear_regression64 [Fin 0, Fin (1 / 2 ^ 600)] [Fin 0, Fin 1] = Inr (NInf, PInf)"
  using identical_tenths_denominator identical_tenths_fit tiny_distinct_denominator
    tiny_distinct_fit
  by simp

lemma div64_by_zero: "div64 v (Fin 0) \<noteq> Fin r"
  by (cases v) (simp_all add: div64_def r64_def)

lemma fit64_no_guard:
  assumes "length x = length y" and "square_sum64 x = Fin 0"
  shows "\<exists>b0 b1. simple_linear_regression64 x y = Inr (b0, b1) \<and> (\<forall>r. b1 \<noteq> Fin r)"
  using assms
  by (simp add: simple_linear_regression64_def cross_sum64_def array_op_same Let_def div64_by_zero)

text \<open>
  C6, as the program behaves. Up to floating-point rounding, that is in exact arithmetic:
  when the \<open>x\<close> values are not all identical the denominator
  \<open>np.sum((x - x_mean) ** 2)\<close> is a nonzero number and the fit returns the finite
  quotient as slope; when they are all identical the denominator is zero and the fit
  returns NaN for slope and intercept. In binary64 as well nothing guards the division:
  for \<open>x\<close> and \<open>y\<close> of the same length the fit raises nothing, and with a zero
  denominator the slope it returns is not a finite number.
\<close>

theorem denominator_and_unguarded_division:
  "(\<not> all_identical xs \<longrightarrow>
      (\<exists>d. d \<noteq> 0 \<and> square_sum (map Fin xs) = Fin d \<and>
         (length ys = length xs \<longrightarrow>
            (\<exists>s. cross_sum (map Fin xs) (map Fin ys) = Inr (Fin s) \<and>
               simple_linear_regression (map Fin xs) (map Fin ys) =
                 Inr (Fin (arith_mean ys - s / d * arith_mean xs), Fin (s / d)))))) \<and>
   (all_identical xs \<longrightarrow>
      square_sum (map Fin xs) = Fin 0 \<and>
      (length ys = length xs \<longrightarrow>
         simple_linear_regression (map Fin xs) (map Fin ys) = Inr (NaN, NaN))) \<and>
   (length x = length y \<and> square_sum64 x = Fin 0 \<longrightarrow>
      (\<exists>b0 b1. simple_linear_regression64 x y = Inr (b0, b1) \<and> (\<forall>r. b1 \<noteq> Fin r)))"
proof (intro conjI impI)
  assume a: "\<not> all_identical xs"
  then have ne: "xs \<noteq> []" by auto
  have nz: "sxx xs \<noteq> 0" using a by (rule sxx_nonzero)
  have sq: "square_sum (map Fin xs) = Fin (sxx xs)" using ne by (rule square_sum_Fin)
  have fit: "length ys = length xs \<longrightarrow>
            (\<exists>s. cross_sum (map Fin xs) (map Fin ys) = Inr (Fin s) \<and>
               simple_linear_regression (map Fin xs) (map Fin ys) =
                 Inr (Fin (arith_mean ys - s / sxx xs * arith_mean xs), Fin (s / sxx xs)))"
  proof
    assume "length ys = length xs"
    then have len: "length xs = length ys" by simp
    from cross_sum_Fin[OF ne len] fit_Fin[OF ne len nz]
    show "\<exists>s. cross_sum (map Fin xs) (map Fin ys) = Inr (Fin s) \<and>
               simple_linear_regression (map Fin xs) (map Fin ys) =
                 Inr (Fin (arith_mean ys - s / sxx xs * arith_mean xs), Fin (s / sxx xs))"
      by blast
  qed
  from nz sq fit
  show "\<exists>d. d \<noteq> 0 \<and> square_sum (map Fin xs) = Fin d \<and>
         (length ys = length xs \<longrightarrow>
            (\<exists>s. cross_sum (map Fin xs) (map Fin ys) = Inr (Fin s) \<and>
               simple_linear_regression (map Fin xs) (map Fin ys) =
                 Inr (Fin (arith_mean ys - s / d * arith_mean xs), Fin (s / d))))"
    by blast
next
  assume a: "all_identical xs"
  show "square_sum (map Fin xs) = Fin 0"
  proof (cases "xs = []")
    case True
    then show ?thesis by (simp add: square_sum_def)
  next
    case False
    then show ?thesis by (simp add: square_sum_Fin sxx_zero[OF a])
  qed
next
  assume a: "all_identical xs" and len: "length ys = length xs"
  show "simple_linear_regression (map Fin xs) (map Fin ys) = Inr (NaN, NaN)"
  proof (cases "xs = []")
    case True
    with len show ?thesis by (simp add: fit_Nil)
  next
    case False
    from len have "length xs = length ys" by simp
    from fit_Fin_degenerate[OF False this sxx_zero[OF a] sxy_zero[OF a]] show ?thesis .
  qed
next
  assume "length x = length y \<and> square_sum64 x = Fin 0"
  then show "\<exists>b0 b1. simple_linear_regression64 x y = Inr (b0, b1) \<and> (\<forall>r. b1 \<noteq> Fin r)"
    using fit64_no_guard by blast
qed

theorem denominator_and_unguarded_division_witness:
  "\<not> all_identical [1, 2 :: real] \<and> square_sum [Fin 1, Fin 2] = Fin (1 / 2) \<and>
   length [3, 5 :: real] = length [1, 2 :: real] \<and>
   cross_sum [Fin 1, Fin 2] [Fin 3, Fin 5] = Inr (Fin 1) \<and>
   simple_linear_regression [Fin 1, Fin 2] [Fin 3, Fin 5] = Inr (Fin 1, Fin 2) \<and>
   all_identical [3, 3 :: real] \<and> square_sum [Fin 3, Fin 3] = Fin 0 \<and>
   simple_linear_regression [Fin 3, Fin 3] [Fin 1, Fin 2] = Inr (NaN, NaN) \<and>
   length [Fin 5, Fin 5] = length [Fin 1, Fin 2] \<and> square_sum64 [Fin 5, Fin 5] = Fin 0 \<and>
   simple_linear_regression64 [Fin 5, Fin 5] [Fin 1, Fin 2] = Inr (NaN, NaN)"
  using denominator_and_unguarded_division [of "[1, 2]" "[3, 5]" "[]" "[]"]
    denominator_and_unguarded_division [of "[3, 3]" "[1, 2]" "[]" "[]"]
    denominator_and_unguarded_division [of "[]" "[]" "[Fin 5, Fin 5]" "[Fin 1, Fin 2]"]
  by (simp add: simple_linear_regression_def cross_sum_def square_sum_def
      np_mean_def fit64_eval round64_eval del: pairwise_sum.simps)








end
